theory Spec2Isabelle
  imports Main
begin

section \<open>Python values used by \<^verbatim>\<open>vocab.py\<close>\<close>

text \<open>
  A token is a Python \<^verbatim>\<open>str\<close>. Tokens are only concatenated and compared for
  equality, so a \<^typ>\<open>string\<close> stands for them.
\<close>

type_synonym token = string

datatype py_error = IndexError | KeyError

subsection \<open>Lists: \<^verbatim>\<open>xs[i]\<close>\<close>

text \<open>
  Subscripting a Python list with an integer: an index below zero is taken from the end
  of the list, and an index that is still outside the list after that raises
  \<^verbatim>\<open>IndexError\<close>.
\<close>

definition list_getitem :: "'a list \<Rightarrow> int \<Rightarrow> py_error + 'a" where
  "list_getitem xs idx =
     (if idx < 0
      then (if idx + int (length xs) < 0 then Inl IndexError
            else Inr (xs ! nat (idx + int (length xs))))
      else (if int (length xs) \<le> idx then Inl IndexError
            else Inr (xs ! nat idx)))"

subsection \<open>Dictionaries\<close>

text \<open>
  A Python \<^verbatim>\<open>dict\<close> keeps its keys in insertion order; storing under a key that is
  already present replaces the value and leaves the key where it is. It is an
  association list with at most one entry per key.
\<close>

type_synonym ('k, 'v) dict = "('k \<times> 'v) list"

fun dict_setitem :: "('k, 'v) dict \<Rightarrow> 'k \<Rightarrow> 'v \<Rightarrow> ('k, 'v) dict" where
  "dict_setitem [] k v = [(k, v)]"
| "dict_setitem ((k', v') # d) k v =
     (if k' = k then (k', v) # d else (k', v') # dict_setitem d k v)"

definition dict_contains :: "('k, 'v) dict \<Rightarrow> 'k \<Rightarrow> bool" where
  "dict_contains d k = (case map_of d k of None \<Rightarrow> False | Some v \<Rightarrow> True)"

definition dict_get :: "('k, 'v) dict \<Rightarrow> 'k \<Rightarrow> 'v \<Rightarrow> 'v" where
  "dict_get d k dflt = (case map_of d k of None \<Rightarrow> dflt | Some v \<Rightarrow> v)"

definition dict_getitem :: "('k, 'v) dict \<Rightarrow> 'k \<Rightarrow> py_error + 'v" where
  "dict_getitem d k = (case map_of d k of None \<Rightarrow> Inl KeyError | Some v \<Rightarrow> Inr v)"

subsection \<open>\<^verbatim>\<open>collections.Counter\<close>\<close>

text \<open>
  \<^verbatim>\<open>Counter(iterable)\<close> is a dictionary from element to number of occurrences, filled
  by \<^verbatim>\<open>c[elem] = c.get(elem, 0) + 1\<close> for the elements in order; its keys are therefore
  the distinct elements in the order in which they are first seen.
\<close>

definition count_elem :: "('k, nat) dict \<Rightarrow> 'k \<Rightarrow> ('k, nat) dict" where
  "count_elem c x = dict_setitem c x (dict_get c x 0 + 1)"

definition Counter :: "'k list \<Rightarrow> ('k, nat) dict" where
  "Counter xs = foldl count_elem [] xs"

section \<open>The class \<^verbatim>\<open>Vocab\<close>\<close>

record vocab =
  forward_map :: "(token, int) dict"
  backward_map :: "token list"
  default_token :: int
  specials :: "token list"

text \<open>
  The loop \<^verbatim>\<open>for i, token in enumerate(self.specials)\<close>; the second argument is the
  counter of \<^verbatim>\<open>enumerate\<close>.
\<close>

fun enter_specials :: "token list \<Rightarrow> nat \<Rightarrow> vocab \<Rightarrow> vocab" where
  "enter_specials [] i v = v"
| "enter_specials (t # ts) i v =
     enter_specials ts (Suc i)
       (v\<lparr>backward_map := backward_map v @ [t],
          forward_map := dict_setitem (forward_map v) t (int i)\<rparr>)"

text \<open>The loop \<^verbatim>\<open>for token, count in counter.items()\<close>.\<close>

fun enter_counter :: "(token, nat) dict \<Rightarrow> vocab \<Rightarrow> vocab" where
  "enter_counter [] v = v"
| "enter_counter ((t, n) # c) v =
     enter_counter c
       (if \<not> dict_contains (forward_map v) t
        then v\<lparr>forward_map := dict_setitem (forward_map v) t (int (length (backward_map v))),
               backward_map := backward_map v @ [t]\<rparr>
        else v)"

text \<open>
  \<^verbatim>\<open>Vocab.__init__(self, counter, specials, unk_token)\<close>. The subscript
  \<^verbatim>\<open>self.forward_map[unk_token]\<close> is the one place where the constructor could raise.
\<close>

definition Vocab_init :: "(token, nat) dict \<Rightarrow> token list \<Rightarrow> token \<Rightarrow> py_error + vocab" where
  "Vocab_init counter sp unk_token =
     (let v0 = \<lparr>forward_map = [], backward_map = [], default_token = 0, specials = sp\<rparr>;
          v1 = enter_specials sp 0 v0
      in if unk_token \<in> set sp
         then (case dict_getitem (forward_map v1) unk_token of
                 Inl e \<Rightarrow> Inl e
               | Inr i \<Rightarrow> Inr (enter_counter counter (v1\<lparr>default_token := i\<rparr>)))
         else Inr (enter_counter counter v1))"

text \<open>\<^verbatim>\<open>to_i\<close>: \<^verbatim>\<open>self.forward_map.get(token, self.default_token)\<close>.\<close>

definition to_i :: "vocab \<Rightarrow> token \<Rightarrow> int" where
  "to_i v t = dict_get (forward_map v) t (default_token v)"

text \<open>
  \<^verbatim>\<open>to_s\<close>; its first argument is the module constant \<^verbatim>\<open>UNK_TOKEN\<close>, which comes from
  the module \<^verbatim>\<open>constants\<close>.
\<close>

definition to_s :: "token \<Rightarrow> vocab \<Rightarrow> int \<Rightarrow> py_error + token" where
  "to_s UNK_TOKEN v idx =
     (if idx \<ge> int (length (backward_map v)) then Inr UNK_TOKEN
      else list_getitem (backward_map v) idx)"

text \<open>\<^verbatim>\<open>__len__\<close>, the \<^verbatim>\<open>Size()\<close> of the specification.\<close>

definition vocab_len :: "vocab \<Rightarrow> int" where
  "vocab_len v = int (length (backward_map v))"

text \<open>
  What the two loops of the constructor maintain: the forward map has one entry per key,
  its keys are the tokens of the backward map, and every entry points at a place of the
  backward map that holds its token.
\<close>

definition vocab_inv :: "vocab \<Rightarrow> bool" where
  "vocab_inv v \<longleftrightarrow>
     distinct (map fst (forward_map v)) \<and>
     fst ` set (forward_map v) = set (backward_map v) \<and>
     (\<forall>t i. map_of (forward_map v) t = Some i \<longrightarrow>
        0 \<le> i \<and> i < int (length (backward_map v)) \<and> backward_map v ! nat i = t)"

text \<open>\<^verbatim>\<open>encode\<close> and \<^verbatim>\<open>decode\<close> on plain Python lists of tokens and of integers.\<close>

definition encode :: "vocab \<Rightarrow> token list \<Rightarrow> int list" where
  "encode v seq = map (to_i v) seq"

fun decode :: "token \<Rightarrow> vocab \<Rightarrow> int list \<Rightarrow> py_error + token list" where
  "decode UNK_TOKEN v [] = Inr []"
| "decode UNK_TOKEN v (idx # seq) =
     (case to_s UNK_TOKEN v idx of
        Inl e \<Rightarrow> Inl e
      | Inr t \<Rightarrow> (case decode UNK_TOKEN v seq of Inl e \<Rightarrow> Inl e | Inr ts \<Rightarrow> Inr (t # ts)))"

text \<open>
  What the specification says the constructor appends after the specials: each distinct
  token of the occurrence sequence, in first-seen order, that is not already mapped. The
  first argument is the set of tokens mapped so far.
\<close>

fun first_seen :: "token set \<Rightarrow> token list \<Rightarrow> token list" where
  "first_seen seen [] = []"
| "first_seen seen (t # ts) =
     (if t \<in> seen then first_seen seen ts else t # first_seen (insert t seen) ts)"

section \<open>The class \<^verbatim>\<open>Tokens\<close>\<close>

subsection \<open>Formatting integers\<close>

text \<open>
  An f-string \<^verbatim>\<open>f'{i}'\<close> of a Python integer is its decimal numeral, with a minus sign
  when it is negative.
\<close>

definition digit_char :: "nat \<Rightarrow> char" where
  "digit_char d = ''0123456789'' ! d"

fun str_nat :: "nat \<Rightarrow> string" where
  "str_nat n = (if n < 10 then [digit_char n] else str_nat (n div 10) @ [digit_char (n mod 10)])"

declare str_nat.simps [simp del]

definition str_int :: "int \<Rightarrow> string" where
  "str_int i = (if i < 0 then CHR ''-'' # str_nat (nat (- i)) else str_nat (nat i))"

text \<open>\<^verbatim>\<open>range(a, b)\<close> over the integers; \<^verbatim>\<open>range(b)\<close> is \<^verbatim>\<open>range(0, b)\<close>.\<close>

definition py_range :: "int \<Rightarrow> int \<Rightarrow> int list" where
  "py_range a b = [a..b - 1]"

subsection \<open>The module constants\<close>

text \<open>
  The module \<^verbatim>\<open>constants\<close> is imported by \<^verbatim>\<open>vocab.py\<close> and is not part of the sources
  at hand, so its values are a parameter of everything that reads them. Of the bin
  arrays only the length is used; their element type is left open.
\<close>

record 'b constants =
  DEFAULT_VELOCITY_BINS :: "'b list"
  DEFAULT_DURATION_BINS :: "'b list"
  DEFAULT_TEMPO_BINS :: "'b list"
  DEFAULT_POS_PER_QUARTER :: int
  MAX_BAR_LENGTH :: int
  MAX_N_BARS :: int
  PAD_TOKEN :: token
  UNK_TOKEN :: token
  BOS_TOKEN :: token
  EOS_TOKEN :: token
  MASK_TOKEN :: token
  TIME_SIGNATURE_KEY :: string
  BAR_KEY :: string
  POSITION_KEY :: string
  INSTRUMENT_KEY :: string
  PITCH_KEY :: string
  VELOCITY_KEY :: string
  DURATION_KEY :: string
  TEMPO_KEY :: string
  CHORD_KEY :: string

subsection \<open>The token builders\<close>

text \<open>
  \<^verbatim>\<open>get_instrument_tokens\<close>; the first argument is
  \<^verbatim>\<open>pretty_midi.program_to_instrument_name\<close>, a function of the library
  \<^verbatim>\<open>pretty_midi\<close> that is total on the programs 0 to 127.
\<close>

definition get_instrument_tokens :: "(int \<Rightarrow> string) \<Rightarrow> string \<Rightarrow> token list" where
  "get_instrument_tokens program_to_instrument_name key =
     [key @ ''_'' @ program_to_instrument_name i. i \<leftarrow> py_range 0 128] @ [key @ ''_drum'']"

definition default_qualities :: "string list" where
  "default_qualities = [''maj'', ''min'', ''dim'', ''aug'', ''dom7'', ''maj7'', ''min7'', ''None'']"

definition pitch_classes :: "string list" where
  "pitch_classes = [''C'', ''C#'', ''D'', ''D#'', ''E'', ''F'', ''F#'', ''G'', ''G#'', ''A'', ''A#'', ''B'']"

definition get_chord_tokens :: "string \<Rightarrow> string list \<Rightarrow> token list" where
  "get_chord_tokens key qualities =
     (let chords = [root @ '':'' @ quality. root \<leftarrow> pitch_classes, quality \<leftarrow> qualities]
                   @ [''N:N'']
      in [key @ ''_'' @ chord. chord \<leftarrow> chords])"

text \<open>
  \<^verbatim>\<open>get_time_signature_tokens\<close>; the first argument is the module constant
  \<^verbatim>\<open>MAX_BAR_LENGTH\<close>.
\<close>

definition get_time_signature_tokens :: "int \<Rightarrow> string \<Rightarrow> token list" where
  "get_time_signature_tokens max_bar_length key =
     (let denominators = [2, 4, 8, 16];
          time_sigs = [str_int p @ ''/'' @ str_int q.
                         q \<leftarrow> denominators, p \<leftarrow> py_range 1 (max_bar_length * q + 1)]
      in [key @ ''_'' @ time_sig. time_sig \<leftarrow> time_sigs])"

definition get_midi_tokens ::
  "'b constants \<Rightarrow> (int \<Rightarrow> string) \<Rightarrow>
   string \<Rightarrow> string \<Rightarrow> string \<Rightarrow> string \<Rightarrow> string \<Rightarrow> string \<Rightarrow> string \<Rightarrow> string \<Rightarrow> token list" where
  "get_midi_tokens K program_to_instrument_name
       instrument_key time_signature_key pitch_key velocity_key duration_key tempo_key
       bar_key position_key =
     (let instrument_tokens = get_instrument_tokens program_to_instrument_name instrument_key;
          pitch_tokens = [pitch_key @ ''_'' @ str_int i. i \<leftarrow> py_range 0 128]
                         @ [pitch_key @ ''_drum_'' @ str_int i. i \<leftarrow> py_range 0 128];
          velocity_tokens = [velocity_key @ ''_'' @ str_int i.
                               i \<leftarrow> py_range 0 (int (length (DEFAULT_VELOCITY_BINS K)))];
          duration_tokens = [duration_key @ ''_'' @ str_int i.
                               i \<leftarrow> py_range 0 (int (length (DEFAULT_DURATION_BINS K)))];
          tempo_tokens = [tempo_key @ ''_'' @ str_int i.
                            i \<leftarrow> py_range 0 (int (length (DEFAULT_TEMPO_BINS K)))];
          bar_tokens = [bar_key @ ''_'' @ str_int i. i \<leftarrow> py_range 0 (MAX_N_BARS K)];
          position_tokens = [position_key @ ''_'' @ str_int i.
                               i \<leftarrow> py_range 0 (MAX_BAR_LENGTH K * 4 * DEFAULT_POS_PER_QUARTER K)];
          time_sig_tokens = get_time_signature_tokens (MAX_BAR_LENGTH K) time_signature_key
      in time_sig_tokens @ tempo_tokens @ instrument_tokens @ pitch_tokens @ velocity_tokens
         @ duration_tokens @ bar_tokens @ position_tokens)"

section \<open>The class \<^verbatim>\<open>RemiVocab\<close>\<close>

subsection \<open>\<^verbatim>\<open>str.split\<close> and \<^verbatim>\<open>str.join\<close>\<close>

text \<open>\<^verbatim>\<open>s.split(c)\<close> for a separator \<^verbatim>\<open>c\<close> of one character.\<close>

fun split_char :: "char \<Rightarrow> string \<Rightarrow> string list" where
  "split_char c [] = [[]]"
| "split_char c (x # xs) =
     (if x = c then [] # split_char c xs
      else (case split_char c xs of [] \<Rightarrow> [[x]] | w # ws \<Rightarrow> (x # w) # ws))"

fun join :: "string \<Rightarrow> string list \<Rightarrow> string" where
  "join sep [] = []"
| "join sep [x] = x"
| "join sep (x # y # ys) = x @ sep @ join sep (y # ys)"

definition newline :: char where
  "newline = CHR 0x0A"

subsection \<open>The token file\<close>

text \<open>
  The file system is a store from paths to the text of the file at that path;
  \<^verbatim>\<open>os.path.exists\<close> asks whether the path is in the store, \<^verbatim>\<open>f.write\<close> puts a
  text there and \<^verbatim>\<open>f.read()\<close> gives back the text as it was written. The store does
  not translate line endings, as a file opened in text mode may, and writing to it does
  not fail.
\<close>

type_synonym file_system = "string \<rightharpoonup> string"

record remi_vocab =
  tokens :: "token list"
  base :: vocab

text \<open>
  \<^verbatim>\<open>RemiVocab.__init__\<close>: the calls \<^verbatim>\<open>Tokens.get_midi_tokens()\<close> and
  \<^verbatim>\<open>Tokens.get_chord_tokens()\<close> take the default keys and qualities, and
  \<^verbatim>\<open>super().__init__(counter)\<close> the default specials and unknown token. The result is
  the file system after the call and the object, or the error raised.
\<close>

definition RemiVocab_init ::
  "'b constants \<Rightarrow> (int \<Rightarrow> string) \<Rightarrow> file_system \<Rightarrow> string \<Rightarrow>
   file_system \<times> (py_error + remi_vocab)" where
  "RemiVocab_init K program_to_instrument_name fs token_file_path =
     (let (fs', toks) =
            (case fs token_file_path of
               Some text \<Rightarrow> (fs, split_char newline text)
             | None \<Rightarrow>
                 (let midi_tokens = get_midi_tokens K program_to_instrument_name
                        (INSTRUMENT_KEY K) (TIME_SIGNATURE_KEY K) (PITCH_KEY K) (VELOCITY_KEY K)
                        (DURATION_KEY K) (TEMPO_KEY K) (BAR_KEY K) (POSITION_KEY K);
                      chord_tokens = get_chord_tokens (CHORD_KEY K) default_qualities;
                      toks = midi_tokens @ chord_tokens
                  in (fs(token_file_path \<mapsto> join [newline] toks), toks)));
          counter = Counter toks
      in (fs',
          case Vocab_init counter
                 [PAD_TOKEN K, UNK_TOKEN K, BOS_TOKEN K, EOS_TOKEN K, MASK_TOKEN K] (UNK_TOKEN K) of
            Inl e \<Rightarrow> Inl e
          | Inr v \<Rightarrow> Inr \<lparr>tokens = toks, base = v\<rparr>))"

section \<open>Example vocabularies\<close>

text \<open>
  Five special tokens in the declared order pad, unknown, begin, end, mask, and the
  vocabulary that the constructor builds from them and the occurrences
  \<^verbatim>\<open>["Pitch_60", "Pitch_62", "Pitch_60"]\<close>.
\<close>

definition example_specials :: "token list" where
  "example_specials = [''<pad>'', ''<unk>'', ''<bos>'', ''<eos>'', ''<mask>'']"

definition example_vocab :: vocab where
  "example_vocab =
     \<lparr>forward_map = [(''<pad>'', 0), (''<unk>'', 1), (''<bos>'', 2), (''<eos>'', 3),
                     (''<mask>'', 4), (''Pitch_60'', 5), (''Pitch_62'', 6)],
      backward_map = [''<pad>'', ''<unk>'', ''<bos>'', ''<eos>'', ''<mask>'',
                      ''Pitch_60'', ''Pitch_62''],
      default_token = 1,
      specials = [''<pad>'', ''<unk>'', ''<bos>'', ''<eos>'', ''<mask>'']\<rparr>"

text \<open>The vocabulary of the five special tokens alone.\<close>

definition specials_only_vocab :: vocab where
  "specials_only_vocab =
     \<lparr>forward_map = [(''<pad>'', 0), (''<unk>'', 1), (''<bos>'', 2), (''<eos>'', 3),
                     (''<mask>'', 4)],
      backward_map = [''<pad>'', ''<unk>'', ''<bos>'', ''<eos>'', ''<mask>''],
      default_token = 1,
      specials = [''<pad>'', ''<unk>'', ''<bos>'', ''<eos>'', ''<mask>'']\<rparr>"

text \<open>
  The vocabulary that the constructor builds from an empty counter when the list of
  specials names the same token twice.
\<close>

definition repeated_special_vocab :: vocab where
  "repeated_special_vocab =
     \<lparr>forward_map = [(''a'', 1)], backward_map = [''a'', ''a''],
      default_token = 0, specials = [''a'', ''a'']\<rparr>"

section \<open>Dictionaries and counters\<close>

lemma map_of_dict_setitem: "map_of (dict_setitem d k v) = (map_of d)(k \<mapsto> v)"
  by (induction d) (auto simp: fun_eq_iff)

lemma keys_dict_setitem:
  "map fst (dict_setitem d k v) = (if k \<in> fst ` set d then map fst d else map fst d @ [k])"
proof (induction d)
  case Nil
  show ?case by simp
next
  case (Cons p d)
  obtain k' v' where p: "p = (k', v')" by (cases p)
  show ?case using Cons.IH by (auto simp: p image_iff)
qed

lemma dict_contains_iff: "dict_contains d k \<longleftrightarrow> k \<in> fst ` set d"
proof (cases "map_of d k")
  case None
  then have "k \<notin> fst ` set d" by (simp add: map_of_eq_None_iff)
  with None show ?thesis by (simp add: dict_contains_def)
next
  case (Some a)
  then have "k \<in> fst ` set d" by (metis map_of_eq_None_iff option.distinct(1))
  with Some show ?thesis by (simp add: dict_contains_def)
qed

lemma first_seen_append:
  "first_seen S (xs @ ys) = first_seen S xs @ first_seen (S \<union> set xs) ys"
  by (induction xs arbitrary: S) (auto simp: insert_absorb)

lemma set_first_seen: "set (first_seen S xs) = set xs - S"
  by (induction xs arbitrary: S) auto

lemma distinct_first_seen: "distinct (first_seen S xs)"
  by (induction xs arbitrary: S) (auto simp: set_first_seen)

lemma first_seen_twice: "first_seen S (first_seen T xs) = first_seen (S \<union> T) xs"
  by (induction xs arbitrary: S T) (auto simp: insert_absorb Un_insert_left)

lemma keys_count_elem:
  "map fst (count_elem c x) = (if x \<in> fst ` set c then map fst c else map fst c @ [x])"
  by (simp add: count_elem_def keys_dict_setitem)

lemma keys_foldl_count_elem:
  "map fst (foldl count_elem c xs) = map fst c @ first_seen (fst ` set c) xs"
proof (induction xs arbitrary: c)
  case Nil
  show ?case by simp
next
  case (Cons x xs)
  have "fst ` set (count_elem c x) = insert x (fst ` set c)"
  proof -
    have "set (map fst (count_elem c x)) = insert x (fst ` set c)"
      unfolding keys_count_elem by auto
    then show ?thesis by simp
  qed
  then show ?case
    using Cons.IH [of "count_elem c x"] by (auto simp: keys_count_elem insert_absorb)
qed

lemma keys_Counter: "map fst (Counter xs) = first_seen {} xs"
  by (simp add: Counter_def keys_foldl_count_elem)


section \<open>The loops of the constructor\<close>

lemma keyset_dict_setitem: "fst ` set (dict_setitem d k v) = insert k (fst ` set d)"
proof -
  have "set (map fst (dict_setitem d k v)) = insert k (fst ` set d)"
    unfolding keys_dict_setitem by auto
  then show ?thesis by simp
qed

lemma vocab_inv_append:
  assumes "vocab_inv v"
  shows "vocab_inv (v\<lparr>backward_map := backward_map v @ [t],
                      forward_map := dict_setitem (forward_map v) t (int (length (backward_map v)))\<rparr>)"
proof -
  have dist: "distinct (map fst (forward_map v))"
    and keys: "fst ` set (forward_map v) = set (backward_map v)"
    and vals: "\<And>t' i. map_of (forward_map v) t' = Some i \<Longrightarrow>
                 0 \<le> i \<and> i < int (length (backward_map v)) \<and> backward_map v ! nat i = t'"
    using assms by (auto simp: vocab_inv_def)
  show ?thesis
    unfolding vocab_inv_def
  proof (intro conjI allI impI)
    show "distinct (map fst (forward_map (v\<lparr>backward_map := backward_map v @ [t],
                      forward_map := dict_setitem (forward_map v) t (int (length (backward_map v)))\<rparr>)))"
      using dist by (simp add: keys_dict_setitem)
  next
    show "fst ` set (forward_map (v\<lparr>backward_map := backward_map v @ [t],
                      forward_map := dict_setitem (forward_map v) t (int (length (backward_map v)))\<rparr>))
          = set (backward_map (v\<lparr>backward_map := backward_map v @ [t],
                      forward_map := dict_setitem (forward_map v) t (int (length (backward_map v)))\<rparr>))"
      by (simp add: keyset_dict_setitem keys)
  next
    fix t' i
    assume "map_of (forward_map (v\<lparr>backward_map := backward_map v @ [t],
                      forward_map := dict_setitem (forward_map v) t (int (length (backward_map v)))\<rparr>)) t' = Some i"
    then have a: "((map_of (forward_map v))(t \<mapsto> int (length (backward_map v)))) t' = Some i"
      by (simp add: map_of_dict_setitem)
    have "0 \<le> i \<and> i < int (length (backward_map v @ [t])) \<and> (backward_map v @ [t]) ! nat i = t'"
    proof (cases "t' = t")
      case True
      with a have "i = int (length (backward_map v))" by simp
      with True show ?thesis by simp
    next
      case False
      with a have "map_of (forward_map v) t' = Some i" by simp
      from vals [OF this] have "0 \<le> i" and "nat i < length (backward_map v)"
        and "backward_map v ! nat i = t'" by auto
      then show ?thesis by (simp add: nth_append)
    qed
    then show "0 \<le> i" 
      and "i < int (length (backward_map (v\<lparr>backward_map := backward_map v @ [t],
                      forward_map := dict_setitem (forward_map v) t (int (length (backward_map v)))\<rparr>)))"
      and "backward_map (v\<lparr>backward_map := backward_map v @ [t],
                      forward_map := dict_setitem (forward_map v) t (int (length (backward_map v)))\<rparr>) ! nat i = t'"
      by simp_all
  qed
qed

lemma backward_enter_specials: "backward_map (enter_specials ts i v) = backward_map v @ ts"
  by (induction ts arbitrary: i v) simp_all

lemma default_enter_specials: "default_token (enter_specials ts i v) = default_token v"
  by (induction ts arbitrary: i v) simp_all

lemma specials_enter_specials: "specials (enter_specials ts i v) = specials v"
  by (induction ts arbitrary: i v) simp_all

lemma vocab_inv_enter_specials:
  "vocab_inv v \<Longrightarrow> i = length (backward_map v) \<Longrightarrow> vocab_inv (enter_specials ts i v)"
proof (induction ts arbitrary: i v)
  case Nil
  then show ?case by simp
next
  case (Cons t ts)
  have "vocab_inv (v\<lparr>backward_map := backward_map v @ [t],
                     forward_map := dict_setitem (forward_map v) t (int i)\<rparr>)"
    using vocab_inv_append [OF Cons.prems(1), of t] Cons.prems(2) by simp
  from Cons.IH [OF this] Cons.prems(2) show ?case by simp
qed

lemma default_enter_counter: "default_token (enter_counter c v) = default_token v"
  by (induction c arbitrary: v) auto

lemma specials_enter_counter: "specials (enter_counter c v) = specials v"
  by (induction c arbitrary: v) auto

lemma vocab_inv_enter_counter: "vocab_inv v \<Longrightarrow> vocab_inv (enter_counter c v)"
proof (induction c arbitrary: v)
  case Nil
  then show ?case by simp
next
  case (Cons p c)
  obtain t n where p: "p = (t, n)" by (cases p)
  have "vocab_inv (v\<lparr>forward_map := dict_setitem (forward_map v) t (int (length (backward_map v))),
                     backward_map := backward_map v @ [t]\<rparr>)"
  proof -
    have eq: "v\<lparr>forward_map := dict_setitem (forward_map v) t (int (length (backward_map v))),
            backward_map := backward_map v @ [t]\<rparr>
          = v\<lparr>backward_map := backward_map v @ [t],
              forward_map := dict_setitem (forward_map v) t (int (length (backward_map v)))\<rparr>"
      by simp
    show ?thesis unfolding eq by (rule vocab_inv_append [OF Cons.prems])
  qed
  with Cons.prems show ?case
    unfolding p by (auto intro: Cons.IH)
qed

lemma backward_enter_counter:
  "fst ` set (forward_map v) = set (backward_map v) \<Longrightarrow>
   backward_map (enter_counter c v) = backward_map v @ first_seen (set (backward_map v)) (map fst c)"
proof (induction c arbitrary: v)
  case Nil
  then show ?case by simp
next
  case (Cons p c)
  obtain t n where p: "p = (t, n)" by (cases p)
  show ?case
  proof (cases "t \<in> set (backward_map v)")
    case True
    then have "dict_contains (forward_map v) t"
      using Cons.prems by (simp add: dict_contains_iff)
    then show ?thesis
      using True Cons.IH [OF Cons.prems] by (simp add: p)
  next
    case False
    then have nc: "\<not> dict_contains (forward_map v) t"
      using Cons.prems by (simp add: dict_contains_iff)
    let ?v = "v\<lparr>forward_map := dict_setitem (forward_map v) t (int (length (backward_map v))),
                backward_map := backward_map v @ [t]\<rparr>"
    have "fst ` set (forward_map ?v) = set (backward_map ?v)"
      using Cons.prems by (simp add: keyset_dict_setitem)
    from Cons.IH [OF this] show ?thesis
      using False nc by (simp add: p)
  qed
qed

lemma forward_enter_counter_keeps:
  "map_of (forward_map v) t = Some i \<Longrightarrow> map_of (forward_map (enter_counter c v)) t = Some i"
proof (induction c arbitrary: v)
  case Nil
  then show ?case by simp
next
  case (Cons p c)
  obtain t' n where p: "p = (t', n)" by (cases p)
  show ?case
  proof (cases "dict_contains (forward_map v) t'")
    case True
    then show ?thesis using Cons by (simp add: p)
  next
    case False
    then have "t' \<noteq> t"
      using Cons.prems by (auto simp: dict_contains_def)
    then have "map_of (forward_map (v\<lparr>forward_map := dict_setitem (forward_map v) t' (int (length (backward_map v))),
                backward_map := backward_map v @ [t']\<rparr>)) t = Some i"
      using Cons.prems by (simp add: map_of_dict_setitem)
    from Cons.IH [OF this] False show ?thesis by (simp add: p)
  qed
qed

section \<open>The constructor\<close>

lemma vocab_inv_default [simp]: "vocab_inv (v\<lparr>default_token := i\<rparr>) = vocab_inv v"
  by (simp add: vocab_inv_def)

lemma vocab_inv_specials_loop:
  "vocab_inv (enter_specials sp 0
     \<lparr>forward_map = [], backward_map = [], default_token = 0, specials = sp\<rparr>)"
  by (rule vocab_inv_enter_specials) (simp_all add: vocab_inv_def)

lemma vocab_inv_keys: "vocab_inv v \<Longrightarrow> fst ` set (forward_map v) = set (backward_map v)"
  by (simp add: vocab_inv_def)

lemma vocab_inv_lookup:
  "vocab_inv v \<Longrightarrow> map_of (forward_map v) t = Some i \<Longrightarrow>
   0 \<le> i \<and> i < int (length (backward_map v)) \<and> backward_map v ! nat i = t"
  by (simp add: vocab_inv_def)

lemma vocab_inv_mapped:
  assumes "vocab_inv v" and "t \<in> set (backward_map v)"
  shows "\<exists>i. map_of (forward_map v) t = Some i"
proof -
  have "t \<in> fst ` set (forward_map v)"
    using assms by (simp add: vocab_inv_keys)
  then show ?thesis
    by (metis map_of_eq_None_iff not_None_eq)
qed

lemma vocab_inv_unmapped:
  assumes "vocab_inv v" and "t \<notin> set (backward_map v)"
  shows "map_of (forward_map v) t = None"
  using assms by (simp add: vocab_inv_keys map_of_eq_None_iff)

lemma vocab_inv_round_trip:
  assumes "vocab_inv v" and "distinct (backward_map v)" and "n < length (backward_map v)"
  shows "map_of (forward_map v) (backward_map v ! n) = Some (int n)"
proof -
  obtain i where i: "map_of (forward_map v) (backward_map v ! n) = Some i"
    using vocab_inv_mapped [OF assms(1)] assms(3) by (meson nth_mem)
  from vocab_inv_lookup [OF assms(1) i]
  have "0 \<le> i" and "nat i < length (backward_map v)"
    and "backward_map v ! nat i = backward_map v ! n" by auto
  then have "nat i = n"
    using assms(2,3) by (simp add: nth_eq_iff_index_eq)
  with \<open>0 \<le> i\<close> i show ?thesis by simp
qed

lemma Vocab_init_total: "\<exists>v. Vocab_init c sp u = Inr v"
proof (cases "u \<in> set sp")
  case True
  let ?v1 = "enter_specials sp 0
     \<lparr>forward_map = [], backward_map = [], default_token = 0, specials = sp\<rparr>"
  have "u \<in> set (backward_map ?v1)"
    using True by (simp add: backward_enter_specials)
  from vocab_inv_mapped [OF vocab_inv_specials_loop this]
  obtain i where "map_of (forward_map ?v1) u = Some i" ..
  then show ?thesis
    using True by (simp add: Vocab_init_def dict_getitem_def)
next
  case False
  then show ?thesis by (simp add: Vocab_init_def)
qed

lemma Vocab_init_props:
  assumes "Vocab_init c sp u = Inr v"
  shows Vocab_init_inv: "vocab_inv v"
    and Vocab_init_backward: "backward_map v = sp @ first_seen (set sp) (map fst c)"
    and Vocab_init_specials: "specials v = sp"
    and Vocab_init_default_0: "u \<notin> set sp \<Longrightarrow> default_token v = 0"
    and Vocab_init_default_unk: "u \<in> set sp \<Longrightarrow>
           map_of (forward_map v) u = Some (default_token v) \<and> 0 \<le> default_token v \<and>
           default_token v < int (length sp) \<and> sp ! nat (default_token v) = u"
proof -
  let ?v1 = "enter_specials sp 0
     \<lparr>forward_map = [], backward_map = [], default_token = 0, specials = sp\<rparr>"
  have inv1: "vocab_inv ?v1" by (rule vocab_inv_specials_loop)
  have bm1: "backward_map ?v1 = sp" by (simp add: backward_enter_specials)
  obtain d where v: "v = enter_counter c (?v1\<lparr>default_token := d\<rparr>)"
    and d0: "u \<notin> set sp \<Longrightarrow> d = 0"
    and d1: "u \<in> set sp \<Longrightarrow> map_of (forward_map ?v1) u = Some d"
  proof (cases "u \<in> set sp")
    case True
    from vocab_inv_mapped [OF inv1, of u] True bm1
    obtain i where i: "map_of (forward_map ?v1) u = Some i" by auto
    with assms True have "v = enter_counter c (?v1\<lparr>default_token := i\<rparr>)"
      by (simp add: Vocab_init_def dict_getitem_def)
    with i True show ?thesis by (intro that [of i]) simp_all
  next
    case False
    have "?v1\<lparr>default_token := default_token ?v1\<rparr> = ?v1" by simp
    then have "?v1\<lparr>default_token := 0\<rparr> = ?v1"
      unfolding default_enter_specials by simp
    with assms False have "v = enter_counter c (?v1\<lparr>default_token := 0\<rparr>)"
      by (simp add: Vocab_init_def)
    with False show ?thesis by (intro that [of 0]) simp_all
  qed
  have inv1': "vocab_inv (?v1\<lparr>default_token := d\<rparr>)" using inv1 by simp
  show "vocab_inv v"
    unfolding v by (rule vocab_inv_enter_counter [OF inv1'])
  have "fst ` set (forward_map (?v1\<lparr>default_token := d\<rparr>)) = set (backward_map (?v1\<lparr>default_token := d\<rparr>))"
    using vocab_inv_keys [OF inv1'] .
  from backward_enter_counter [OF this, of c]
  show "backward_map v = sp @ first_seen (set sp) (map fst c)"
    unfolding v using bm1 by simp
  show "specials v = sp"
    unfolding v by (simp add: specials_enter_counter specials_enter_specials)
  show "default_token v = 0" if "u \<notin> set sp"
    unfolding v using d0 [OF that] by (simp add: default_enter_counter)
  show "map_of (forward_map v) u = Some (default_token v) \<and> 0 \<le> default_token v \<and>
        default_token v < int (length sp) \<and> sp ! nat (default_token v) = u" if "u \<in> set sp"
  proof -
    have dv: "default_token v = d"
      unfolding v by (simp add: default_enter_counter)
    have "map_of (forward_map (?v1\<lparr>default_token := d\<rparr>)) u = Some d"
      using d1 [OF that] by simp
    from forward_enter_counter_keeps [OF this, of c]
    have "map_of (forward_map v) u = Some d" unfolding v .
    moreover from vocab_inv_lookup [OF inv1 d1 [OF that]] bm1
    have "0 \<le> d \<and> d < int (length sp) \<and> sp ! nat d = u" by simp
    ultimately show ?thesis using dv by simp
  qed
qed

section \<open>Looking tokens and indices up\<close>

text \<open>The example vocabularies are what the constructor returns.\<close>

lemma example_vocab_built:
  "Vocab_init (Counter [''Pitch_60'', ''Pitch_62'', ''Pitch_60'']) example_specials ''<unk>''
   = Inr example_vocab"
  by (simp add: Vocab_init_def Counter_def count_elem_def dict_get_def dict_getitem_def
      dict_contains_def example_specials_def example_vocab_def)

lemma repeated_special_vocab_built:
  "Vocab_init (Counter []) [''a'', ''a''] ''<unk>'' = Inr repeated_special_vocab"
  by (simp add: Vocab_init_def Counter_def repeated_special_vocab_def)

lemma to_s_oversized: "vocab_len v \<le> idx \<Longrightarrow> to_s unk v idx = Inr unk"
  by (simp add: to_s_def vocab_len_def)

lemma to_s_in_range:
  "0 \<le> idx \<Longrightarrow> idx < vocab_len v \<Longrightarrow> to_s unk v idx = Inr (backward_map v ! nat idx)"
  by (simp add: to_s_def vocab_len_def list_getitem_def)

text \<open>
  Claim C10. For a constructed vocabulary and a negative index \<open>idx\<close> with
  \<open>- Size() \<le> idx < 0\<close>, \<^verbatim>\<open>to_s(idx)\<close> returns the token stored at position
  \<open>Size() + idx\<close>, counting from the end as Python lists do; for \<open>idx < - Size()\<close> it
  raises \<^verbatim>\<open>IndexError\<close>, so \<^verbatim>\<open>to_s\<close> is not total on the negative integers.
\<close>

theorem to_s_negative_index:
  assumes "Vocab_init c sp u = Inr v"
  shows "(- vocab_len v \<le> idx \<and> idx < 0 \<longrightarrow>
            to_s unk v idx = Inr (backward_map v ! nat (vocab_len v + idx))) \<and>
         (idx < - vocab_len v \<longrightarrow> to_s unk v idx = Inl IndexError)"
  by (auto simp: to_s_def vocab_len_def list_getitem_def add.commute)

text \<open>
  On the vocabulary of seven tokens, index \<open>-1\<close> gives the last token and index \<open>-8\<close>
  raises.
\<close>

theorem to_s_negative_index_witness:
  "Vocab_init (Counter [''Pitch_60'', ''Pitch_62'', ''Pitch_60'']) example_specials ''<unk>''
     = Inr example_vocab \<and>
   - vocab_len example_vocab \<le> - 1 \<and> (- 1 :: int) < 0 \<and>
   to_s ''<unk>'' example_vocab (- 1) = Inr ''Pitch_62'' \<and>
   - 8 < - vocab_len example_vocab \<and>
   to_s ''<unk>'' example_vocab (- 8) = Inl IndexError"
proof -
  have b: "Vocab_init (Counter [''Pitch_60'', ''Pitch_62'', ''Pitch_60'']) example_specials ''<unk>''
     = Inr example_vocab" by (rule example_vocab_built)
  have l: "vocab_len example_vocab = 7" by (simp add: vocab_len_def example_vocab_def)
  have n: "backward_map example_vocab ! nat (7 + (- 1)) = ''Pitch_62''"
    by (simp add: example_vocab_def)
  from to_s_negative_index [OF b, of "- 1" "''<unk>''"] to_s_negative_index [OF b, of "- 8" "''<unk>''"]
  show ?thesis using b l n by simp
qed

text \<open>
  Claim C1 says that every index outside \<open>[0, Size())\<close>, negative ones included, is
  answered with the unknown token and never with an error. The test
  \<^verbatim>\<open>idx >= len(self.backward_map)\<close> of \<^verbatim>\<open>to_s\<close> covers the indices that are too
  large (lemma \<open>to_s_oversized\<close>) and lets the negative ones through to the list
  subscript: on the vocabulary of the five specials, \<^verbatim>\<open>to_s(-1)\<close> is the mask token
  and \<^verbatim>\<open>to_s(-6)\<close> raises \<^verbatim>\<open>IndexError\<close>.
\<close>

theorem to_s_minus_one_is_mask_token:
  "Vocab_init (Counter []) example_specials ''<unk>'' = Inr specials_only_vocab \<and>
   to_s ''<unk>'' specials_only_vocab (- 1) = Inr ''<mask>'' \<and>
   to_s ''<unk>'' specials_only_vocab (- 1) \<noteq> Inr ''<unk>'' \<and>
   to_s ''<unk>'' specials_only_vocab (- 6) = Inl IndexError"
  by (simp add: Vocab_init_def Counter_def dict_getitem_def example_specials_def to_s_def
      list_getitem_def specials_only_vocab_def)

lemma to_i_mapped: "map_of (forward_map v) t = Some i \<Longrightarrow> to_i v t = i"
  by (simp add: to_i_def dict_get_def)

lemma to_i_unmapped: "map_of (forward_map v) t = None \<Longrightarrow> to_i v t = default_token v"
  by (simp add: to_i_def dict_get_def)

lemma Vocab_init_distinct:
  assumes "Vocab_init c sp u = Inr v" and "distinct sp"
  shows "distinct (backward_map v)"
  unfolding Vocab_init_backward [OF assms(1)]
  using assms(2) by (auto simp: distinct_first_seen set_first_seen)

text \<open>
  Claim C2, amended. For a vocabulary constructed from pairwise distinct specials and
  every index \<open>i\<close> with \<open>0 \<le> i < Size()\<close>, \<^verbatim>\<open>to_s(i)\<close> returns a token and
  \<^verbatim>\<open>to_i\<close> maps that token back to \<open>i\<close>.
\<close>

theorem round_trip_distinct_specials:
  assumes "Vocab_init c sp u = Inr v" and "distinct sp"
    and "0 \<le> i" and "i < vocab_len v"
  shows "\<exists>t. to_s unk v i = Inr t \<and> to_i v t = i"
proof -
  have n: "nat i < length (backward_map v)"
    using assms(3,4) by (simp add: vocab_len_def)
  have "map_of (forward_map v) (backward_map v ! nat i) = Some (int (nat i))"
    by (rule vocab_inv_round_trip [OF Vocab_init_inv [OF assms(1)] Vocab_init_distinct [OF assms(1,2)] n])
  then have "to_i v (backward_map v ! nat i) = i"
    using assms(3) by (simp add: to_i_mapped)
  with to_s_in_range [OF assms(3,4)] show ?thesis by simp
qed

text \<open>Index 5 of the vocabulary of seven tokens goes to \<^verbatim>\<open>Pitch_60\<close> and back.\<close>

theorem round_trip_distinct_specials_witness:
  "Vocab_init (Counter [''Pitch_60'', ''Pitch_62'', ''Pitch_60'']) example_specials ''<unk>''
     = Inr example_vocab \<and>
   distinct example_specials \<and> (0::int) \<le> 5 \<and> 5 < vocab_len example_vocab \<and>
   to_s ''<unk>'' example_vocab 5 = Inr ''Pitch_60'' \<and> to_i example_vocab ''Pitch_60'' = 5"
proof -
  have b: "Vocab_init (Counter [''Pitch_60'', ''Pitch_62'', ''Pitch_60'']) example_specials ''<unk>''
     = Inr example_vocab" by (rule example_vocab_built)
  have d: "distinct example_specials" by (simp add: example_specials_def)
  have l: "5 < vocab_len example_vocab" by (simp add: vocab_len_def example_vocab_def)
  have s: "to_s ''<unk>'' example_vocab 5 = Inr ''Pitch_60''"
    by (simp add: to_s_def list_getitem_def example_vocab_def)
  from round_trip_distinct_specials [OF b d _ l, of "''<unk>''"] s
  have "to_i example_vocab ''Pitch_60'' = 5" by simp
  with b d l s show ?thesis by simp
qed

text \<open>
  Claim C2 as stated, for every constructed vocabulary, fails when the specials repeat a
  token: the loop over the specials appends each of them to the backward map and
  overwrites the entry of the forward map, so with the specials \<^verbatim>\<open>['a', 'a']\<close> index 0
  holds \<^verbatim>\<open>'a'\<close> and \<^verbatim>\<open>to_i('a')\<close> is 1.
\<close>

theorem round_trip_fails_repeated_special:
  "Vocab_init (Counter []) [''a'', ''a''] ''<unk>'' = Inr repeated_special_vocab \<and>
   (0::int) \<le> 0 \<and> 0 < vocab_len repeated_special_vocab \<and>
   to_s ''<unk>'' repeated_special_vocab 0 = Inr ''a'' \<and>
   to_i repeated_special_vocab ''a'' = 1 \<and>
   to_i repeated_special_vocab ''a'' \<noteq> 0"
  by (simp add: Vocab_init_def Counter_def repeated_special_vocab_def vocab_len_def to_s_def
      list_getitem_def to_i_def dict_get_def)

text \<open>
  Claim C4. For a constructed vocabulary and a token that is not in it, \<^verbatim>\<open>to_i\<close>
  returns the default index (and, being a dictionary lookup with a default, cannot
  raise). When the unknown token is among the specials the default index is its index:
  \<^verbatim>\<open>to_i\<close> of the unknown token, a position within the specials that holds it.
  Otherwise the default index is 0.
\<close>

theorem to_i_unknown_token:
  assumes "Vocab_init c sp u = Inr v" and "t \<notin> set (backward_map v)"
  shows "to_i v t = default_token v \<and>
         (if u \<in> set sp
          then to_i v u = default_token v \<and> 0 \<le> default_token v \<and>
               default_token v < int (length sp) \<and> sp ! nat (default_token v) = u
          else default_token v = 0)"
proof -
  have "map_of (forward_map v) t = None"
    by (rule vocab_inv_unmapped [OF Vocab_init_inv [OF assms(1)] assms(2)])
  then have "to_i v t = default_token v" by (rule to_i_unmapped)
  moreover have "default_token v = 0" if "u \<notin> set sp"
    by (rule Vocab_init_default_0 [OF assms(1) that])
  moreover have "to_i v u = default_token v \<and> 0 \<le> default_token v \<and>
               default_token v < int (length sp) \<and> sp ! nat (default_token v) = u" if "u \<in> set sp"
    using Vocab_init_default_unk [OF assms(1) that] by (simp add: to_i_mapped)
  ultimately show ?thesis by simp
qed

text \<open>
  Both cases: the vocabulary of seven tokens, whose specials contain the unknown token at
  index 1, and a vocabulary whose specials do not contain it.
\<close>

theorem to_i_unknown_token_witness:
  "Vocab_init (Counter [''Pitch_60'', ''Pitch_62'', ''Pitch_60'']) example_specials ''<unk>''
     = Inr example_vocab \<and>
   ''Pitch_61'' \<notin> set (backward_map example_vocab) \<and>
   ''<unk>'' \<in> set example_specials \<and>
   to_i example_vocab ''Pitch_61'' = default_token example_vocab \<and>
   to_i example_vocab ''<unk>'' = default_token example_vocab \<and>
   default_token example_vocab = 1 \<and>
   Vocab_init (Counter []) [''a'', ''a''] ''<unk>'' = Inr repeated_special_vocab \<and>
   ''b'' \<notin> set (backward_map repeated_special_vocab) \<and>
   ''<unk>'' \<notin> set [''a'', ''a''] \<and>
   to_i repeated_special_vocab ''b'' = default_token repeated_special_vocab \<and>
   default_token repeated_special_vocab = 0"
proof -
  have b: "Vocab_init (Counter [''Pitch_60'', ''Pitch_62'', ''Pitch_60'']) example_specials ''<unk>''
     = Inr example_vocab" by (rule example_vocab_built)
  have n: "''Pitch_61'' \<notin> set (backward_map example_vocab)" by (simp add: example_vocab_def)
  have u: "''<unk>'' \<in> set example_specials" by (simp add: example_specials_def)
  have b': "Vocab_init (Counter []) [''a'', ''a''] ''<unk>'' = Inr repeated_special_vocab"
    by (rule repeated_special_vocab_built)
  have n': "''b'' \<notin> set (backward_map repeated_special_vocab)"
    by (simp add: repeated_special_vocab_def)
  have u': "''<unk>'' \<notin> set [''a'', ''a'']" by simp
  have d: "default_token example_vocab = 1" by (simp add: example_vocab_def)
  from to_i_unknown_token [OF b n] to_i_unknown_token [OF b' n'] b n u b' n' u' d
  show ?thesis by simp
qed

section \<open>The order of the indices\<close>






section \<open>Repeated occurrences\<close>

lemma enter_counter_keys:
  "map fst c = map fst c' \<Longrightarrow> enter_counter c v = enter_counter c' v"
proof (induction c arbitrary: c' v)
  case Nil
  then show ?case by simp
next
  case (Cons p c)
  then obtain p' c'' where c': "c' = p' # c''" by (cases c') auto
  obtain t n where p: "p = (t, n)" by (cases p)
  obtain t' n' where p': "p' = (t', n')" by (cases p')
  from Cons.prems have "t' = t" and "map fst c = map fst c''"
    by (simp_all add: c' p p')
  then show ?case
    using Cons.IH [of c''] by (simp add: c' p p')
qed

lemma enter_counter_append:
  "enter_counter (c @ c') v = enter_counter c' (enter_counter c v)"
proof (induction c arbitrary: v)
  case Nil
  show ?case by simp
next
  case (Cons p c)
  obtain t n where p: "p = (t, n)" by (cases p)
  show ?case by (simp add: p Cons.IH)
qed

lemma Vocab_init_via_empty:
  "Vocab_init c sp u =
     (case Vocab_init [] sp u of Inl e \<Rightarrow> Inl e | Inr v0 \<Rightarrow> Inr (enter_counter c v0))"
  by (simp add: Vocab_init_def Let_def split: sum.splits)

lemma Vocab_init_more_occurrences:
  assumes v: "Vocab_init (Counter toks) sp u = Inr v"
    and w: "Vocab_init (Counter (toks @ later)) sp u = Inr w"
  shows "w = enter_counter (map (\<lambda>k. (k, 0)) (first_seen (set toks) later)) v"
proof -
  obtain v0 where v0: "Vocab_init [] sp u = Inr v0"
    using Vocab_init_total by blast
  have v': "v = enter_counter (Counter toks) v0"
    using v by (simp add: Vocab_init_via_empty [of "Counter toks"] v0)
  have w': "w = enter_counter (Counter (toks @ later)) v0"
    using w by (simp add: Vocab_init_via_empty [of "Counter (toks @ later)"] v0)
  have "map fst (Counter (toks @ later))
        = map fst (Counter toks @ map (\<lambda>k. (k, 0)) (first_seen (set toks) later))"
    by (simp add: keys_Counter first_seen_append comp_def)
  from enter_counter_keys [OF this, of v0]
  show ?thesis by (simp add: v' w' enter_counter_append)
qed

lemma Vocab_init_Counter_backward:
  assumes "Vocab_init (Counter toks) sp u = Inr v"
  shows "backward_map v = sp @ first_seen (set sp) toks"
  using Vocab_init_backward [OF assms] by (simp add: keys_Counter first_seen_twice)

lemma count_list_distinct: "distinct xs \<Longrightarrow> x \<in> set xs \<Longrightarrow> count_list xs x = 1"
  by (induction xs) (auto simp: count_list_0_iff)

lemma count_list_absent: "x \<notin> set xs \<Longrightarrow> count_list xs x = 0"
  by (simp add: count_list_0_iff)

text \<open>
  Claim C7. With five pairwise distinct specials in the order pad, unknown, begin, end,
  mask, none of them one of the three pitch tokens, the occurrences
  \<^verbatim>\<open>["Pitch_60", "Pitch_62", "Pitch_60"]\<close> give a vocabulary of size 7 in which
  \<^verbatim>\<open>Pitch_60\<close> has index 5, \<^verbatim>\<open>Pitch_62\<close> index 6 and the absent \<^verbatim>\<open>Pitch_61\<close> the
  index 1 of the unknown token. In general, for any occurrences, specials and unknown
  token, the constructor returns a vocabulary and does not raise; after the specials its
  backward map holds the distinct tokens in first-seen order that are not specials, so a
  token of the occurrences that is not a special is stored exactly once; and the index
  of a token is settled by its first occurrence: occurrences that follow, of the same or
  of other tokens, leave it as it is.
\<close>

theorem duplicate_occurrences_collapse:
  "(distinct [PAD, UNK, BOS, EOS, MASK] \<and>
    set [''Pitch_60'', ''Pitch_61'', ''Pitch_62''] \<inter> set [PAD, UNK, BOS, EOS, MASK] = {} \<longrightarrow>
    (\<exists>v. Vocab_init (Counter [''Pitch_60'', ''Pitch_62'', ''Pitch_60''])
            [PAD, UNK, BOS, EOS, MASK] UNK = Inr v \<and>
         vocab_len v = 7 \<and> to_i v ''Pitch_60'' = 5 \<and> to_i v ''Pitch_62'' = 6 \<and>
         to_i v ''Pitch_61'' = 1)) \<and>
   (\<exists>v w. Vocab_init (Counter toks) sp u = Inr v \<and>
          Vocab_init (Counter (toks @ later)) sp u = Inr w \<and>
          backward_map v = sp @ first_seen (set sp) toks \<and>
          (\<forall>t \<in> set toks. t \<notin> set sp \<longrightarrow> count_list (backward_map v) t = 1) \<and>
          (\<forall>t \<in> set toks. to_i w t = to_i v t))"
proof (intro conjI impI)
  assume a: "distinct [PAD, UNK, BOS, EOS, MASK] \<and>
    set [''Pitch_60'', ''Pitch_61'', ''Pitch_62''] \<inter> set [PAD, UNK, BOS, EOS, MASK] = {}"
  let ?sp = "[PAD, UNK, BOS, EOS, MASK]"
  obtain v where v: "Vocab_init (Counter [''Pitch_60'', ''Pitch_62'', ''Pitch_60'']) ?sp UNK = Inr v"
    using Vocab_init_total by blast
  have d: "distinct ?sp" using a by blast
  have n60: "''Pitch_60'' \<notin> set ?sp" and n61: "''Pitch_61'' \<notin> set ?sp"
    and n62: "''Pitch_62'' \<notin> set ?sp"
    using a by auto
  have "first_seen (set ?sp) [''Pitch_60'', ''Pitch_62'', ''Pitch_60''] = [''Pitch_60'', ''Pitch_62'']"
    using n60 n62 by simp
  then have bm: "backward_map v = ?sp @ [''Pitch_60'', ''Pitch_62'']"
    using Vocab_init_Counter_backward [OF v] by simp
  have inv: "vocab_inv v" by (rule Vocab_init_inv [OF v])
  have dv: "distinct (backward_map v)" by (rule Vocab_init_distinct [OF v d])
  have len: "vocab_len v = 7" by (simp add: vocab_len_def bm)
  have "map_of (forward_map v) (backward_map v ! 5) = Some (int 5)"
    by (rule vocab_inv_round_trip [OF inv dv]) (simp add: bm)
  then have i60: "to_i v ''Pitch_60'' = 5" by (simp add: bm to_i_mapped)
  have "map_of (forward_map v) (backward_map v ! 6) = Some (int 6)"
    by (rule vocab_inv_round_trip [OF inv dv]) (simp add: bm)
  then have i62: "to_i v ''Pitch_62'' = 6" by (simp add: bm to_i_mapped)
  have "map_of (forward_map v) (backward_map v ! 1) = Some (int 1)"
    by (rule vocab_inv_round_trip [OF inv dv]) (simp add: bm)
  then have iu: "to_i v UNK = 1" by (simp add: bm to_i_mapped)
  have "''Pitch_61'' \<notin> set (backward_map v)"
    using n61 by (simp add: bm)
  from to_i_unmapped [OF vocab_inv_unmapped [OF inv this]]
  have "to_i v ''Pitch_61'' = default_token v" .
  also have "default_token v = to_i v UNK"
    using Vocab_init_default_unk [OF v, THEN conjunct1] by (simp add: to_i_mapped)
  finally have i61: "to_i v ''Pitch_61'' = 1" using iu by simp
  from v len i60 i62 i61
  show "\<exists>v. Vocab_init (Counter [''Pitch_60'', ''Pitch_62'', ''Pitch_60'']) ?sp UNK = Inr v \<and>
         vocab_len v = 7 \<and> to_i v ''Pitch_60'' = 5 \<and> to_i v ''Pitch_62'' = 6 \<and>
         to_i v ''Pitch_61'' = 1" by blast
next
  obtain v where v: "Vocab_init (Counter toks) sp u = Inr v"
    using Vocab_init_total by blast
  obtain w where w: "Vocab_init (Counter (toks @ later)) sp u = Inr w"
    using Vocab_init_total by blast
  have bm: "backward_map v = sp @ first_seen (set sp) toks"
    by (rule Vocab_init_Counter_backward [OF v])
  have once: "count_list (backward_map v) t = 1" if "t \<in> set toks" and "t \<notin> set sp" for t
  proof -
    have "t \<in> set (first_seen (set sp) toks)"
      using that by (simp add: set_first_seen)
    from count_list_distinct [OF distinct_first_seen this] count_list_absent [OF that(2)]
    show ?thesis by (simp add: bm)
  qed
  have same: "to_i w t = to_i v t" if "t \<in> set toks" for t
  proof -
    have "t \<in> set (backward_map v)"
      using that by (auto simp: bm set_first_seen)
    from vocab_inv_mapped [OF Vocab_init_inv [OF v] this]
    obtain i where i: "map_of (forward_map v) t = Some i" ..
    from forward_enter_counter_keeps [OF this]
    have "map_of (forward_map w) t = Some i"
      unfolding Vocab_init_more_occurrences [OF v w] .
    with i show ?thesis by (simp add: to_i_mapped)
  qed
  from v w bm once same
  show "\<exists>v w. Vocab_init (Counter toks) sp u = Inr v \<and>
          Vocab_init (Counter (toks @ later)) sp u = Inr w \<and>
          backward_map v = sp @ first_seen (set sp) toks \<and>
          (\<forall>t \<in> set toks. t \<notin> set sp \<longrightarrow> count_list (backward_map v) t = 1) \<and>
          (\<forall>t \<in> set toks. to_i w t = to_i v t)" by blast
qed

text \<open>
  The scenario with the specials \<^verbatim>\<open><pad>\<close>, \<^verbatim>\<open><unk>\<close>, \<^verbatim>\<open><bos>\<close>, \<^verbatim>\<open><eos>\<close>,
  \<^verbatim>\<open><mask>\<close>, and the general part for \<^verbatim>\<open>Pitch_60\<close> with two later occurrences.
\<close>

theorem duplicate_occurrences_collapse_witness:
  "distinct [''<pad>'', ''<unk>'', ''<bos>'', ''<eos>'', ''<mask>''] \<and>
   set [''Pitch_60'', ''Pitch_61'', ''Pitch_62'']
     \<inter> set [''<pad>'', ''<unk>'', ''<bos>'', ''<eos>'', ''<mask>''] = {} \<and>
   (\<exists>v. Vocab_init (Counter [''Pitch_60'', ''Pitch_62'', ''Pitch_60''])
          [''<pad>'', ''<unk>'', ''<bos>'', ''<eos>'', ''<mask>''] ''<unk>'' = Inr v \<and>
        vocab_len v = 7 \<and> to_i v ''Pitch_60'' = 5 \<and> to_i v ''Pitch_62'' = 6 \<and>
        to_i v ''Pitch_61'' = 1) \<and>
   ''Pitch_60'' \<in> set [''Pitch_60'', ''Pitch_62'', ''Pitch_60''] \<and>
   ''Pitch_60'' \<notin> set [''<pad>'', ''<unk>'', ''<bos>'', ''<eos>'', ''<mask>''] \<and>
   (\<exists>v w. Vocab_init (Counter [''Pitch_60'', ''Pitch_62'', ''Pitch_60''])
            [''<pad>'', ''<unk>'', ''<bos>'', ''<eos>'', ''<mask>''] ''<unk>'' = Inr v \<and>
          Vocab_init (Counter ([''Pitch_60'', ''Pitch_62'', ''Pitch_60'']
                               @ [''Pitch_64'', ''Pitch_60'']))
            [''<pad>'', ''<unk>'', ''<bos>'', ''<eos>'', ''<mask>''] ''<unk>'' = Inr w \<and>
          count_list (backward_map v) ''Pitch_60'' = 1 \<and>
          to_i w ''Pitch_60'' = to_i v ''Pitch_60'')"
proof -
  have d: "distinct [''<pad>'', ''<unk>'', ''<bos>'', ''<eos>'', ''<mask>'']" by simp
  have e: "set [''Pitch_60'', ''Pitch_61'', ''Pitch_62'']
     \<inter> set [''<pad>'', ''<unk>'', ''<bos>'', ''<eos>'', ''<mask>''] = {}" by simp
  have m: "''Pitch_60'' \<in> set [''Pitch_60'', ''Pitch_62'', ''Pitch_60'']" by simp
  have n: "''Pitch_60'' \<notin> set [''<pad>'', ''<unk>'', ''<bos>'', ''<eos>'', ''<mask>'']" by simp
  note inst = duplicate_occurrences_collapse [of "''<pad>''" "''<unk>''" "''<bos>''" "''<eos>''"
      "''<mask>''" "[''Pitch_60'', ''Pitch_62'', ''Pitch_60'']"
      "[''<pad>'', ''<unk>'', ''<bos>'', ''<eos>'', ''<mask>'']" "''<unk>''"
      "[''Pitch_64'', ''Pitch_60'']"]
  from inst d e
  have A: "\<exists>v. Vocab_init (Counter [''Pitch_60'', ''Pitch_62'', ''Pitch_60''])
          [''<pad>'', ''<unk>'', ''<bos>'', ''<eos>'', ''<mask>''] ''<unk>'' = Inr v \<and>
        vocab_len v = 7 \<and> to_i v ''Pitch_60'' = 5 \<and> to_i v ''Pitch_62'' = 6 \<and>
        to_i v ''Pitch_61'' = 1" by blast
  from inst m n
  have B: "\<exists>v w. Vocab_init (Counter [''Pitch_60'', ''Pitch_62'', ''Pitch_60''])
            [''<pad>'', ''<unk>'', ''<bos>'', ''<eos>'', ''<mask>''] ''<unk>'' = Inr v \<and>
          Vocab_init (Counter ([''Pitch_60'', ''Pitch_62'', ''Pitch_60'']
                               @ [''Pitch_64'', ''Pitch_60'']))
            [''<pad>'', ''<unk>'', ''<bos>'', ''<eos>'', ''<mask>''] ''<unk>'' = Inr w \<and>
          count_list (backward_map v) ''Pitch_60'' = 1 \<and>
          to_i w ''Pitch_60'' = to_i v ''Pitch_60''" by blast
  from d e A m n B show ?thesis by blast
qed

section \<open>The token builders\<close>

lemma chord_tokens_any_key:
  "get_chord_tokens key qualities
   = map (\<lambda>t. key @ drop 5 t) (get_chord_tokens ''Chord'' qualities)"
  by (simp add: get_chord_tokens_def Let_def map_concat comp_def)

lemma time_signature_tokens_any_key:
  "get_time_signature_tokens m key
   = map (\<lambda>t. key @ drop 7 t) (get_time_signature_tokens m ''TimeSig'')"
  by (simp add: get_time_signature_tokens_def Let_def map_concat comp_def)

text \<open>
  Claim C3, amended. With \<^verbatim>\<open>MAX_BAR_LENGTH = 1\<close> and the key \<^verbatim>\<open>TimeSig\<close> the
  time-signature enumeration produces exactly \<open>2 + 4 + 8 + 16 = 30\<close> tokens: for each
  denominator \<open>q\<close> of 2, 4, 8, 16 in this order, the tokens \<^verbatim>\<open>TimeSig_1/q\<close> to
  \<^verbatim>\<open>TimeSig_q/q\<close> with the numerators ascending. Another key replaces the prefix
  \<^verbatim>\<open>TimeSig\<close> and changes nothing else.
\<close>

theorem time_signature_tokens_bar_length_1:
  "get_time_signature_tokens 1 ''TimeSig'' =
     [''TimeSig_1/2'', ''TimeSig_2/2'', ''TimeSig_1/4'', ''TimeSig_2/4'',
      ''TimeSig_3/4'', ''TimeSig_4/4'', ''TimeSig_1/8'', ''TimeSig_2/8'',
      ''TimeSig_3/8'', ''TimeSig_4/8'', ''TimeSig_5/8'', ''TimeSig_6/8'',
      ''TimeSig_7/8'', ''TimeSig_8/8'', ''TimeSig_1/16'', ''TimeSig_2/16'',
      ''TimeSig_3/16'', ''TimeSig_4/16'', ''TimeSig_5/16'', ''TimeSig_6/16'',
      ''TimeSig_7/16'', ''TimeSig_8/16'', ''TimeSig_9/16'', ''TimeSig_10/16'',
      ''TimeSig_11/16'', ''TimeSig_12/16'', ''TimeSig_13/16'', ''TimeSig_14/16'',
      ''TimeSig_15/16'', ''TimeSig_16/16''] \<and>
   get_time_signature_tokens 1 key
     = map (\<lambda>t. key @ drop 7 t) (get_time_signature_tokens 1 ''TimeSig'')"
proof
  show "get_time_signature_tokens 1 ''TimeSig'' =
     [''TimeSig_1/2'', ''TimeSig_2/2'', ''TimeSig_1/4'', ''TimeSig_2/4'',
      ''TimeSig_3/4'', ''TimeSig_4/4'', ''TimeSig_1/8'', ''TimeSig_2/8'',
      ''TimeSig_3/8'', ''TimeSig_4/8'', ''TimeSig_5/8'', ''TimeSig_6/8'',
      ''TimeSig_7/8'', ''TimeSig_8/8'', ''TimeSig_1/16'', ''TimeSig_2/16'',
      ''TimeSig_3/16'', ''TimeSig_4/16'', ''TimeSig_5/16'', ''TimeSig_6/16'',
      ''TimeSig_7/16'', ''TimeSig_8/16'', ''TimeSig_9/16'', ''TimeSig_10/16'',
      ''TimeSig_11/16'', ''TimeSig_12/16'', ''TimeSig_13/16'', ''TimeSig_14/16'',
      ''TimeSig_15/16'', ''TimeSig_16/16'']"
    by code_simp
  show "get_time_signature_tokens 1 key
     = map (\<lambda>t. key @ drop 7 t) (get_time_signature_tokens 1 ''TimeSig'')"
    by (rule time_signature_tokens_any_key)
qed

text \<open>
  Claim C3 as stated expects four tokens, one per denominator. The numerators run from 1
  to \<^verbatim>\<open>MAX_BAR_LENGTH * q\<close>, which is \<open>q\<close> and not 1 when the bar length is 1: there
  are 30 tokens, and the second one is \<^verbatim>\<open>TimeSig_2/2\<close>.
\<close>

theorem time_signature_tokens_not_four:
  "length (get_time_signature_tokens 1 ''TimeSig'') = 30 \<and>
   get_time_signature_tokens 1 ''TimeSig'' ! 1 = ''TimeSig_2/2'' \<and>
   get_time_signature_tokens 1 ''TimeSig''
     \<noteq> [''TimeSig_1/2'', ''TimeSig_1/4'', ''TimeSig_1/8'', ''TimeSig_1/16'']"
  by code_simp

text \<open>
  Claim C6. With the key \<^verbatim>\<open>Chord\<close> and the default list of eight qualities the chord
  enumeration produces exactly 97 tokens: for each of the twelve pitch classes C, C#, D,
  D#, E, F, F#, G, G#, A, A#, B (outer) and each quality maj, min, dim, aug, dom7, maj7,
  min7, None (inner) the token \<^verbatim>\<open>Chord_<root>:<quality>\<close>, and then the token
  \<^verbatim>\<open>Chord_N:N\<close>. The first token is \<^verbatim>\<open>Chord_C:maj\<close> and the last is \<^verbatim>\<open>Chord_N:N\<close>.
  Another key replaces the prefix \<^verbatim>\<open>Chord\<close> and changes nothing else.
\<close>

theorem chord_tokens_default_qualities:
  "(get_chord_tokens ''Chord''
     [''maj'', ''min'', ''dim'', ''aug'', ''dom7'', ''maj7'', ''min7'', ''None''] =
     [''Chord_C:maj'', ''Chord_C:min'', ''Chord_C:dim'', ''Chord_C:aug'',
      ''Chord_C:dom7'', ''Chord_C:maj7'', ''Chord_C:min7'', ''Chord_C:None'',
      ''Chord_C#:maj'', ''Chord_C#:min'', ''Chord_C#:dim'', ''Chord_C#:aug'',
      ''Chord_C#:dom7'', ''Chord_C#:maj7'', ''Chord_C#:min7'', ''Chord_C#:None'',
      ''Chord_D:maj'', ''Chord_D:min'', ''Chord_D:dim'', ''Chord_D:aug'',
      ''Chord_D:dom7'', ''Chord_D:maj7'', ''Chord_D:min7'', ''Chord_D:None'',
      ''Chord_D#:maj'', ''Chord_D#:min'', ''Chord_D#:dim'', ''Chord_D#:aug'',
      ''Chord_D#:dom7'', ''Chord_D#:maj7'', ''Chord_D#:min7'', ''Chord_D#:None'',
      ''Chord_E:maj'', ''Chord_E:min'', ''Chord_E:dim'', ''Chord_E:aug'',
      ''Chord_E:dom7'', ''Chord_E:maj7'', ''Chord_E:min7'', ''Chord_E:None'',
      ''Chord_F:maj'', ''Chord_F:min'', ''Chord_F:dim'', ''Chord_F:aug'',
      ''Chord_F:dom7'', ''Chord_F:maj7'', ''Chord_F:min7'', ''Chord_F:None'',
      ''Chord_F#:maj'', ''Chord_F#:min'', ''Chord_F#:dim'', ''Chord_F#:aug'',
      ''Chord_F#:dom7'', ''Chord_F#:maj7'', ''Chord_F#:min7'', ''Chord_F#:None'',
      ''Chord_G:maj'', ''Chord_G:min'', ''Chord_G:dim'', ''Chord_G:aug'',
      ''Chord_G:dom7'', ''Chord_G:maj7'', ''Chord_G:min7'', ''Chord_G:None'',
      ''Chord_G#:maj'', ''Chord_G#:min'', ''Chord_G#:dim'', ''Chord_G#:aug'',
      ''Chord_G#:dom7'', ''Chord_G#:maj7'', ''Chord_G#:min7'', ''Chord_G#:None'',
      ''Chord_A:maj'', ''Chord_A:min'', ''Chord_A:dim'', ''Chord_A:aug'',
      ''Chord_A:dom7'', ''Chord_A:maj7'', ''Chord_A:min7'', ''Chord_A:None'',
      ''Chord_A#:maj'', ''Chord_A#:min'', ''Chord_A#:dim'', ''Chord_A#:aug'',
      ''Chord_A#:dom7'', ''Chord_A#:maj7'', ''Chord_A#:min7'', ''Chord_A#:None'',
      ''Chord_B:maj'', ''Chord_B:min'', ''Chord_B:dim'', ''Chord_B:aug'',
      ''Chord_B:dom7'', ''Chord_B:maj7'', ''Chord_B:min7'', ''Chord_B:None'',
      ''Chord_N:N''] \<and>
   get_chord_tokens ''Chord'' default_qualities =
     get_chord_tokens ''Chord''
       [''maj'', ''min'', ''dim'', ''aug'', ''dom7'', ''maj7'', ''min7'', ''None''] \<and>
   length (get_chord_tokens ''Chord'' default_qualities) = 97 \<and>
   hd (get_chord_tokens ''Chord'' default_qualities) = ''Chord_C:maj'' \<and>
   last (get_chord_tokens ''Chord'' default_qualities) = ''Chord_N:N'') \<and>
   get_chord_tokens key default_qualities
     = map (\<lambda>t. key @ drop 5 t) (get_chord_tokens ''Chord'' default_qualities)"
proof
  show "get_chord_tokens ''Chord''
     [''maj'', ''min'', ''dim'', ''aug'', ''dom7'', ''maj7'', ''min7'', ''None''] =
     [''Chord_C:maj'', ''Chord_C:min'', ''Chord_C:dim'', ''Chord_C:aug'',
      ''Chord_C:dom7'', ''Chord_C:maj7'', ''Chord_C:min7'', ''Chord_C:None'',
      ''Chord_C#:maj'', ''Chord_C#:min'', ''Chord_C#:dim'', ''Chord_C#:aug'',
      ''Chord_C#:dom7'', ''Chord_C#:maj7'', ''Chord_C#:min7'', ''Chord_C#:None'',
      ''Chord_D:maj'', ''Chord_D:min'', ''Chord_D:dim'', ''Chord_D:aug'',
      ''Chord_D:dom7'', ''Chord_D:maj7'', ''Chord_D:min7'', ''Chord_D:None'',
      ''Chord_D#:maj'', ''Chord_D#:min'', ''Chord_D#:dim'', ''Chord_D#:aug'',
      ''Chord_D#:dom7'', ''Chord_D#:maj7'', ''Chord_D#:min7'', ''Chord_D#:None'',
      ''Chord_E:maj'', ''Chord_E:min'', ''Chord_E:dim'', ''Chord_E:aug'',
      ''Chord_E:dom7'', ''Chord_E:maj7'', ''Chord_E:min7'', ''Chord_E:None'',
      ''Chord_F:maj'', ''Chord_F:min'', ''Chord_F:dim'', ''Chord_F:aug'',
      ''Chord_F:dom7'', ''Chord_F:maj7'', ''Chord_F:min7'', ''Chord_F:None'',
      ''Chord_F#:maj'', ''Chord_F#:min'', ''Chord_F#:dim'', ''Chord_F#:aug'',
      ''Chord_F#:dom7'', ''Chord_F#:maj7'', ''Chord_F#:min7'', ''Chord_F#:None'',
      ''Chord_G:maj'', ''Chord_G:min'', ''Chord_G:dim'', ''Chord_G:aug'',
      ''Chord_G:dom7'', ''Chord_G:maj7'', ''Chord_G:min7'', ''Chord_G:None'',
      ''Chord_G#:maj'', ''Chord_G#:min'', ''Chord_G#:dim'', ''Chord_G#:aug'',
      ''Chord_G#:dom7'', ''Chord_G#:maj7'', ''Chord_G#:min7'', ''Chord_G#:None'',
      ''Chord_A:maj'', ''Chord_A:min'', ''Chord_A:dim'', ''Chord_A:aug'',
      ''Chord_A:dom7'', ''Chord_A:maj7'', ''Chord_A:min7'', ''Chord_A:None'',
      ''Chord_A#:maj'', ''Chord_A#:min'', ''Chord_A#:dim'', ''Chord_A#:aug'',
      ''Chord_A#:dom7'', ''Chord_A#:maj7'', ''Chord_A#:min7'', ''Chord_A#:None'',
      ''Chord_B:maj'', ''Chord_B:min'', ''Chord_B:dim'', ''Chord_B:aug'',
      ''Chord_B:dom7'', ''Chord_B:maj7'', ''Chord_B:min7'', ''Chord_B:None'',
      ''Chord_N:N''] \<and>
   get_chord_tokens ''Chord'' default_qualities =
     get_chord_tokens ''Chord''
       [''maj'', ''min'', ''dim'', ''aug'', ''dom7'', ''maj7'', ''min7'', ''None''] \<and>
   length (get_chord_tokens ''Chord'' default_qualities) = 97 \<and>
   hd (get_chord_tokens ''Chord'' default_qualities) = ''Chord_C:maj'' \<and>
   last (get_chord_tokens ''Chord'' default_qualities) = ''Chord_N:N''"
    by code_simp
  show "get_chord_tokens key default_qualities
     = map (\<lambda>t. key @ drop 5 t) (get_chord_tokens ''Chord'' default_qualities)"
    by (rule chord_tokens_any_key)
qed

lemma py_range_upt: "py_range 0 n = map int [0..<nat n]"
  unfolding py_range_def by (rule nth_equalityI) auto

lemma map_py_range: "map f (py_range 0 n) = map (\<lambda>i. f (int i)) [0..<nat n]"
  by (simp add: py_range_upt comp_def)

lemma instrument_tokens_upt:
  "get_instrument_tokens name key
   = map (\<lambda>i. key @ ''_'' @ name (int i)) [0..<128] @ [key @ ''_drum'']"
  by (simp add: get_instrument_tokens_def map_py_range)

text \<open>
  Claim C8. The composite MIDI token list is the concatenation, in this order, of: the
  time-signature tokens; one tempo token per tempo bin; the 129 instrument tokens, one
  per program 0 to 127 and the drum token last; the 128 pitch tokens of the pitches 0 to
  127 followed by the 128 drum pitch tokens, which carry the marker \<^verbatim>\<open>drum\<close>; one
  velocity token per velocity bin; one duration token per duration bin; one bar token
  per bar 0 to \<^verbatim>\<open>MAX_N_BARS - 1\<close>; and the position tokens, whose number is
  \<^verbatim>\<open>MAX_BAR_LENGTH * 4 * DEFAULT_POS_PER_QUARTER\<close> (none when that product is not
  positive).
\<close>

theorem midi_tokens_concatenation:
  "get_midi_tokens K name instrument_key time_signature_key pitch_key velocity_key
     duration_key tempo_key bar_key position_key =
     get_time_signature_tokens (MAX_BAR_LENGTH K) time_signature_key
     @ map (\<lambda>i. tempo_key @ ''_'' @ str_int (int i)) [0..<length (DEFAULT_TEMPO_BINS K)]
     @ (map (\<lambda>i. instrument_key @ ''_'' @ name (int i)) [0..<128] @ [instrument_key @ ''_drum''])
     @ (map (\<lambda>i. pitch_key @ ''_'' @ str_int (int i)) [0..<128]
        @ map (\<lambda>i. pitch_key @ ''_drum_'' @ str_int (int i)) [0..<128])
     @ map (\<lambda>i. velocity_key @ ''_'' @ str_int (int i)) [0..<length (DEFAULT_VELOCITY_BINS K)]
     @ map (\<lambda>i. duration_key @ ''_'' @ str_int (int i)) [0..<length (DEFAULT_DURATION_BINS K)]
     @ map (\<lambda>i. bar_key @ ''_'' @ str_int (int i)) [0..<nat (MAX_N_BARS K)]
     @ map (\<lambda>i. position_key @ ''_'' @ str_int (int i))
         [0..<nat (MAX_BAR_LENGTH K * 4 * DEFAULT_POS_PER_QUARTER K)] \<and>
   length (get_instrument_tokens name instrument_key) = 129 \<and>
   last (get_instrument_tokens name instrument_key) = instrument_key @ ''_drum'' \<and>
   length (get_midi_tokens K name instrument_key time_signature_key pitch_key velocity_key
     duration_key tempo_key bar_key position_key) =
     length (get_time_signature_tokens (MAX_BAR_LENGTH K) time_signature_key)
     + length (DEFAULT_TEMPO_BINS K) + 129 + (128 + 128)
     + length (DEFAULT_VELOCITY_BINS K) + length (DEFAULT_DURATION_BINS K)
     + nat (MAX_N_BARS K) + nat (MAX_BAR_LENGTH K * 4 * DEFAULT_POS_PER_QUARTER K)"
proof (intro conjI)
  show eq: "get_midi_tokens K name instrument_key time_signature_key pitch_key velocity_key
     duration_key tempo_key bar_key position_key =
     get_time_signature_tokens (MAX_BAR_LENGTH K) time_signature_key
     @ map (\<lambda>i. tempo_key @ ''_'' @ str_int (int i)) [0..<length (DEFAULT_TEMPO_BINS K)]
     @ (map (\<lambda>i. instrument_key @ ''_'' @ name (int i)) [0..<128] @ [instrument_key @ ''_drum''])
     @ (map (\<lambda>i. pitch_key @ ''_'' @ str_int (int i)) [0..<128]
        @ map (\<lambda>i. pitch_key @ ''_drum_'' @ str_int (int i)) [0..<128])
     @ map (\<lambda>i. velocity_key @ ''_'' @ str_int (int i)) [0..<length (DEFAULT_VELOCITY_BINS K)]
     @ map (\<lambda>i. duration_key @ ''_'' @ str_int (int i)) [0..<length (DEFAULT_DURATION_BINS K)]
     @ map (\<lambda>i. bar_key @ ''_'' @ str_int (int i)) [0..<nat (MAX_N_BARS K)]
     @ map (\<lambda>i. position_key @ ''_'' @ str_int (int i))
         [0..<nat (MAX_BAR_LENGTH K * 4 * DEFAULT_POS_PER_QUARTER K)]"
    unfolding get_midi_tokens_def Let_def instrument_tokens_upt map_py_range by simp
  show "length (get_instrument_tokens name instrument_key) = 129"
    unfolding instrument_tokens_upt by simp
  show "last (get_instrument_tokens name instrument_key) = instrument_key @ ''_drum''"
    unfolding instrument_tokens_upt by simp
  show "length (get_midi_tokens K name instrument_key time_signature_key pitch_key velocity_key
     duration_key tempo_key bar_key position_key) =
     length (get_time_signature_tokens (MAX_BAR_LENGTH K) time_signature_key)
     + length (DEFAULT_TEMPO_BINS K) + 129 + (128 + 128)
     + length (DEFAULT_VELOCITY_BINS K) + length (DEFAULT_DURATION_BINS K)
     + nat (MAX_N_BARS K) + nat (MAX_BAR_LENGTH K * 4 * DEFAULT_POS_PER_QUARTER K)"
    unfolding eq by simp
qed

section \<open>Saving and loading the token list\<close>

lemma split_char_no_sep: "c \<notin> set t \<Longrightarrow> split_char c t = [t]"
  by (induction t) auto

lemma split_char_first: "c \<notin> set t \<Longrightarrow> split_char c (t @ c # s) = t # split_char c s"
  by (induction t) auto

lemma split_join:
  "xs \<noteq> [] \<Longrightarrow> \<forall>t \<in> set xs. c \<notin> set t \<Longrightarrow> split_char c (join [c] xs) = xs"
proof (induction "[c]" xs rule: join.induct)
  case 1
  then show ?case by simp
next
  case (2 x)
  then show ?case by (simp add: split_char_no_sep)
next
  case (3 x y ys)
  then show ?case by (simp add: split_char_first)
qed

lemma split_join_Nil: "split_char c (join [c] []) = [[]]"
  by simp


lemma chord_tokens_not_Nil: "get_chord_tokens key qualities \<noteq> []"
  by (simp add: get_chord_tokens_def Let_def)

text \<open>
  \<^verbatim>\<open>RemiVocab\<close> itself: when the token file does not exist, the constructor writes it, and
  if no token contains a newline, a second construction reads the file, leaves it as it
  is and arrives at the same tokens and the same vocabulary.
\<close>

lemma RemiVocab_init_reload:
  assumes "fs path = None"
    and "RemiVocab_init K name fs path = (fs', Inr r)"
    and "\<forall>t \<in> set (tokens r). newline \<notin> set t"
  shows "RemiVocab_init K name fs' path = (fs', Inr r)"
proof -
  define toks where "toks = get_midi_tokens K name
                        (INSTRUMENT_KEY K) (TIME_SIGNATURE_KEY K) (PITCH_KEY K) (VELOCITY_KEY K)
                        (DURATION_KEY K) (TEMPO_KEY K) (BAR_KEY K) (POSITION_KEY K)
                      @ get_chord_tokens (CHORD_KEY K) default_qualities"
  define sp where "sp = [PAD_TOKEN K, UNK_TOKEN K, BOS_TOKEN K, EOS_TOKEN K, MASK_TOKEN K]"
  have first: "RemiVocab_init K name fs path =
      (fs(path \<mapsto> join [newline] toks),
       case Vocab_init (Counter toks) sp (UNK_TOKEN K) of
         Inl e \<Rightarrow> Inl e | Inr v \<Rightarrow> Inr \<lparr>tokens = toks, base = v\<rparr>)"
    using assms(1) unfolding toks_def sp_def by (simp add: RemiVocab_init_def Let_def)
  obtain v where v: "Vocab_init (Counter toks) sp (UNK_TOKEN K) = Inr v"
    using Vocab_init_total by blast
  from first assms(2) have fs': "fs' = fs(path \<mapsto> join [newline] toks)"
    and r: "r = \<lparr>tokens = toks, base = v\<rparr>"
    by (simp_all add: v)
  have "toks \<noteq> []"
    by (simp add: toks_def chord_tokens_not_Nil)
  moreover have "\<forall>t \<in> set toks. newline \<notin> set t"
    using assms(3) by (simp add: r)
  ultimately have reread: "split_char newline (join [newline] toks) = toks"
    by (rule split_join)
  show ?thesis
    by (simp add: RemiVocab_init_def Let_def fs' reread r v sp_def [symmetric])
qed



end
